theory Spec2Isabelle
  imports Main
begin

section \<open>Quick-pick items for images (commands/utils/quick-pick-image.ts)\<close>

text \<open>
  \<^verbatim>\<open>Docker.ImageDesc\<close> is declared by the dockerode typings; \<^verbatim>\<open>computeItems\<close> reads
  only \<^verbatim>\<open>RepoTags\<close>, which is absent (undefined or null) for a dangling image. The record is
  extensible, so the remaining fields of the descriptor ride along unchanged.
\<close>

record ImageDesc =
  Id :: string
  RepoTags :: "string list option"

text \<open>
  \<^verbatim>\<open>ImageItem extends vscode.QuickPickItem { imageDesc }\<close>. The item \<^verbatim>\<open>All Images\<close> is built
  without an \<^verbatim>\<open>imageDesc\<close>, hence the option.
\<close>

record ImageItem =
  label :: string
  imageDesc :: "ImageDesc option"

text \<open>
  \<^verbatim>\<open>label: repoTag || '<none>'\<close>: the empty string is falsy in JavaScript. (The
  parameter \<^verbatim>\<open>image\<close> of the source is written \<open>img\<close>: \<open>image\<close> is a constant of HOL.)
\<close>

definition createItem :: "ImageDesc \<Rightarrow> string \<Rightarrow> ImageItem" where
  "createItem img repoTag =
     \<lparr>label = (if repoTag = [] then ''<none>'' else repoTag), imageDesc = Some img\<rparr>"

text \<open>The inner loop \<^verbatim>\<open>for (j = 0; j < RepoTags.length; j++) items.push(createItem(..))\<close>.\<close>

function repoTagsLoop :: "ImageDesc \<Rightarrow> string list \<Rightarrow> nat \<Rightarrow> ImageItem list \<Rightarrow> ImageItem list" where
  "repoTagsLoop img tags j items =
     (if j < length tags
      then repoTagsLoop img tags (Suc j) (items @ [createItem img (tags ! j)])
      else items)"
  by pat_completeness auto
termination
  by (relation "measure (\<lambda>(img, tags, j, items). length tags - j)") auto

declare repoTagsLoop.simps [simp del]

text \<open>The outer loop \<^verbatim>\<open>for (i = 0; i < images.length; i++)\<close> with its dangling branch.\<close>

function imagesLoop :: "ImageDesc list \<Rightarrow> nat \<Rightarrow> ImageItem list \<Rightarrow> ImageItem list" where
  "imagesLoop images i items =
     (if i < length images
      then imagesLoop images (Suc i)
             (case RepoTags (images ! i) of
                None \<Rightarrow> items @ [createItem (images ! i) ''<none>:<none>'']
              | Some tags \<Rightarrow> repoTagsLoop (images ! i) tags 0 items)
      else items)"
  by pat_completeness auto
termination
  by (relation "measure (\<lambda>(images, i, items). length images - i)") auto

declare imagesLoop.simps [simp del]

text \<open>
  \<^verbatim>\<open>includeAll?: boolean\<close> may be left out by the caller; \<^verbatim>\<open>includeAll && images.length > 0\<close>
  is then falsy. \<^verbatim>\<open>items.unshift\<close> puts the extra item in front.
\<close>

definition computeItems :: "ImageDesc list \<Rightarrow> bool option \<Rightarrow> ImageItem list" where
  "computeItems images includeAll =
     (let items = imagesLoop images 0 []
      in if includeAll = Some True \<and> length images > 0
         then \<lparr>label = ''All Images'', imageDesc = None\<rparr> # items
         else items)"

text \<open>The items one image contributes, as a list.\<close>

definition itemsOfImage :: "ImageDesc \<Rightarrow> ImageItem list" where
  "itemsOfImage img =
     (case RepoTags img of
        None \<Rightarrow> [\<lparr>label = ''<none>:<none>'', imageDesc = Some img\<rparr>]
      | Some tags \<Rightarrow> map (createItem img) tags)"

section \<open>Activation (dockerExtension.ts): patterns, selectors, registered providers\<close>

text \<open>The two exported glob constants, character for character.\<close>

definition COMPOSE_FILE_GLOB_PATTERN :: string where
  "COMPOSE_FILE_GLOB_PATTERN = ''**/[dD]ocker-[cC]ompose*.{yaml,yml}''"

definition DOCKERFILE_GLOB_PATTERN :: string where
  "DOCKERFILE_GLOB_PATTERN = ''**/{*.dockerfile,[dD]ocker[fF]ile}''"

text \<open>
  A \<^verbatim>\<open>vscode.DocumentFilter\<close> has three optional properties. The extension writes two
  filters: \<^verbatim>\<open>DOCUMENT_SELECTOR = [{ language: 'dockerfile', scheme: 'file' }]\<close> and
  \<^verbatim>\<open>YAML_MODE_ID = { language: 'yaml', scheme: 'file', pattern: COMPOSE_FILE_GLOB_PATTERN }\<close>.
\<close>

record DocumentFilter =
  language :: "string option"
  scheme :: "string option"
  pattern :: "string option"

definition DOCUMENT_SELECTOR :: "DocumentFilter list" where
  "DOCUMENT_SELECTOR = [\<lparr>language = Some ''dockerfile'', scheme = Some ''file'', pattern = None\<rparr>]"

definition YAML_MODE_ID :: DocumentFilter where
  "YAML_MODE_ID =
     \<lparr>language = Some ''yaml'', scheme = Some ''file'', pattern = Some COMPOSE_FILE_GLOB_PATTERN\<rparr>"

text \<open>What the editor knows of an open document when it picks providers.\<close>

record TextDocument =
  languageId :: string
  uriScheme :: string
  fsPath :: string

text \<open>
  The editor offers a document to a provider when the document matches the provider's
  selector: every property a filter carries has to agree with the document. Matching a
  path against a glob is the editor's own code, so the matcher \<open>glob\<close> (pattern first,
  path second) is a parameter here.
\<close>

definition filterMatches :: "(string \<Rightarrow> string \<Rightarrow> bool) \<Rightarrow> DocumentFilter \<Rightarrow> TextDocument \<Rightarrow> bool" where
  "filterMatches glob f d =
     ((case language f of None \<Rightarrow> True | Some l \<Rightarrow> l = languageId d) \<and>
      (case scheme f of None \<Rightarrow> True | Some s \<Rightarrow> s = uriScheme d) \<and>
      (case pattern f of None \<Rightarrow> True | Some p \<Rightarrow> glob p (fsPath d)))"

definition selectorMatches :: "(string \<Rightarrow> string \<Rightarrow> bool) \<Rightarrow> DocumentFilter list \<Rightarrow> TextDocument \<Rightarrow> bool" where
  "selectorMatches glob sel d = list_ex (\<lambda>f. filterMatches glob f d) sel"

text \<open>
  The language providers \<^verbatim>\<open>activate\<close> registers, in its order:
  \<^verbatim>\<open>registerCompletionItemProvider(DOCUMENT_SELECTOR, new DockerfileCompletionItemProvider(), '.')\<close>,
  \<^verbatim>\<open>registerHoverProvider(YAML_MODE_ID, yamlHoverProvider)\<close>,
  \<^verbatim>\<open>registerCompletionItemProvider(YAML_MODE_ID, new DockerComposeCompletionItemProvider(), '.')\<close>.
\<close>

datatype Provider =
  DockerfileCompletionItemProvider
| DockerComposeHoverProvider
| DockerComposeCompletionItemProvider

definition registeredProviders :: "(DocumentFilter list \<times> Provider) list" where
  "registeredProviders =
     [(DOCUMENT_SELECTOR, DockerfileCompletionItemProvider),
      ([YAML_MODE_ID], DockerComposeHoverProvider),
      ([YAML_MODE_ID], DockerComposeCompletionItemProvider)]"

text \<open>The providers a document is routed to.\<close>

definition providersFor :: "(string \<Rightarrow> string \<Rightarrow> bool) \<Rightarrow> TextDocument \<Rightarrow> Provider list" where
  "providersFor glob d =
     map snd (filter (\<lambda>(sel, p). selectorMatches glob sel d) registeredProviders)"

section \<open>Regular expressions as JavaScript runs them\<close>

text \<open>
  \<^verbatim>\<open>FROM_DIRECTIVE_PATTERN\<close> is a JavaScript regular expression literal. The constructs it
  uses are embedded as a datatype, and \<open>run\<close> below is the backtracking matcher of the
  ECMAScript specification for them: alternatives are tried in priority order, \<open>*\<close> and \<open>?\<close>
  are greedy, a \<open>*\<close> iteration that consumes nothing is rejected, and a group records the
  text its body consumed.

  A JavaScript string is a sequence of 16-bit code units. A code unit is modelled by its
  number and a string by the list of its code units; no definition below depends on the
  bound \<open>65536\<close>. \<open>code c\<close> is the code unit of an ASCII character and \<open>str s\<close> the string
  of an ASCII literal.
\<close>

type_synonym jsString = "nat list"

definition code :: "char \<Rightarrow> nat" where
  "code c = of_char c"

definition str :: "string \<Rightarrow> jsString" where
  "str s = map code s"

text \<open>The members of a character class: a character, a range \<open>a-z\<close>, \<open>\w\<close> or \<open>\s\<close>.\<close>

datatype classItem =
  Single char
| Range char char
| WordChar
| WhiteSpace

text \<open>
  \<open>itemHas item n\<close>: the code unit \<open>n\<close> belongs to the item. \<open>\w\<close> is \<open>[A-Za-z0-9_]\<close>. \<open>\s\<close> is
  the white space and the line terminators of ECMAScript: TAB, LF, VT, FF, CR, SPACE, NBSP
  (U+00A0), U+1680, U+2000 to U+200A, U+2028, U+2029, U+202F, U+205F, U+3000 and U+FEFF.
\<close>

fun itemHas :: "classItem \<Rightarrow> nat \<Rightarrow> bool" where
  "itemHas (Single a) n = (n = code a)"
| "itemHas (Range lo hi) n = (code lo \<le> n \<and> n \<le> code hi)"
| "itemHas WordChar n =
     ((65 \<le> n \<and> n \<le> 90) \<or> (97 \<le> n \<and> n \<le> 122) \<or> (48 \<le> n \<and> n \<le> 57) \<or> n = 95)"
| "itemHas WhiteSpace n =
     ((9 \<le> n \<and> n \<le> 13) \<or> n = 32 \<or> n = 160 \<or> n = 5760 \<or> (8192 \<le> n \<and> n \<le> 8202) \<or>
      n = 8232 \<or> n = 8233 \<or> n = 8239 \<or> n = 8287 \<or> n = 12288 \<or> n = 65279)"

text \<open>
  With the \<open>i\<close> flag (and no \<open>u\<close> flag) a code unit matches a set when their canonical forms
  meet. The canonical form is the upper case, except that a code unit from 128 on is never
  mapped below 128: so an ASCII member is met by itself and by its other-case ASCII twin
  only, and the white space members, which have no case, by themselves only. The patterns
  here have no other members.
\<close>

definition itemMatches :: "bool \<Rightarrow> classItem \<Rightarrow> nat \<Rightarrow> bool" where
  "itemMatches ignoreCase item n =
     (itemHas item n \<or>
      (ignoreCase \<and>
         ((97 \<le> n \<and> n \<le> 122 \<and> itemHas item (n - 32)) \<or>
          (65 \<le> n \<and> n \<le> 90 \<and> itemHas item (n + 32)))))"

definition classMatches :: "bool \<Rightarrow> classItem list \<Rightarrow> nat \<Rightarrow> bool" where
  "classMatches ignoreCase items n = list_ex (\<lambda>item. itemMatches ignoreCase item n) items"

datatype regex =
  Bol
| Eol
| Lit char
| Class "classItem list"
| Empty
| Seq regex regex
| Star regex
| Opt regex
| Group nat regex

text \<open>\<open>r1 r2 ... rn\<close> written one after the other, and \<open>r+\<close>, which is \<open>r\<close> then \<open>r*\<close>.\<close>

fun seqs :: "regex list \<Rightarrow> regex" where
  "seqs [] = Empty"
| "seqs [r] = r"
| "seqs (r # rs) = Seq r (seqs rs)"

definition Plus :: "regex \<Rightarrow> regex" where
  "Plus r = Seq r (Star r)"

text \<open>
  A matcher state: the captures so far, the index reached, and the input from that index
  on. \<open>run\<close> returns every state the pattern can end in, best first.
\<close>

type_synonym captures = "nat \<rightharpoonup> jsString"
type_synonym mstate = "captures \<times> nat \<times> jsString"

fun run :: "bool \<Rightarrow> regex \<Rightarrow> mstate \<Rightarrow> mstate list" where
  "run ic Bol (caps, i, s) = (if i = 0 then [(caps, i, s)] else [])"
| "run ic Eol (caps, i, s) = (if s = [] then [(caps, i, s)] else [])"
| "run ic (Lit a) (caps, i, s) =
     (case s of
        [] \<Rightarrow> []
      | c # cs \<Rightarrow> if itemMatches ic (Single a) c then [(caps, Suc i, cs)] else [])"
| "run ic (Class items) (caps, i, s) =
     (case s of
        [] \<Rightarrow> []
      | c # cs \<Rightarrow> if classMatches ic items c then [(caps, Suc i, cs)] else [])"
| "run ic Empty st = [st]"
| "run ic (Seq r1 r2) st = concat (map (run ic r2) (run ic r1 st))"
| "run ic (Star r) (caps, i, s) =
     concat (map (\<lambda>(caps', i', s').
                    if length s' < length s then run ic (Star r) (caps', i', s') else [])
                 (run ic r (caps, i, s)))
     @ [(caps, i, s)]"
| "run ic (Opt r) st = run ic r st @ [st]"
| "run ic (Group n r) (caps, i, s) =
     map (\<lambda>(caps', i', s'). (caps'(n \<mapsto> take (i' - i) s), i', s')) (run ic r (caps, i, s))"

text \<open>The equation for \<open>*\<close> calls itself; it is unfolded on request only.\<close>

lemmas run_Star = run.simps(7)

declare run.simps(7) [simp del]

text \<open>
  \<^verbatim>\<open>RegExp.prototype.exec\<close> without the global flag: try the pattern at index 0, then 1, and
  so on to the end of the input; the first success gives the captures (group 0 is the
  whole match), and \<^verbatim>\<open>null\<close> is \<open>None\<close>. \<^verbatim>\<open>str.match(re)\<close> is this call.
\<close>

fun execFrom :: "bool \<Rightarrow> regex \<Rightarrow> nat \<Rightarrow> jsString \<Rightarrow> captures option" where
  "execFrom ic r i s =
     (case run ic r (Map.empty, i, s) of
        (caps, i', s') # _ \<Rightarrow> Some (caps(0 \<mapsto> take (i' - i) s))
      | [] \<Rightarrow> (case s of [] \<Rightarrow> None | c # cs \<Rightarrow> execFrom ic r (Suc i) cs))"

declare execFrom.simps [simp del]

definition exec :: "bool \<Rightarrow> regex \<Rightarrow> jsString \<Rightarrow> captures option" where
  "exec ic r s = execFrom ic r 0 s"

subsection \<open>The FROM pattern of dockerExtension.ts\<close>

text \<open>
  \<^verbatim>\<open>/^\s*FROM\s*([\w-\/:]*)(\s*AS\s*[a-z][a-z0-9-_\\.]*)?$/i\<close>. In \<^verbatim>\<open>[\w-\/:]\<close> the dash
  follows a class escape and is a member; in \<^verbatim>\<open>[a-z0-9-_\\.]\<close> the dash after the range
  \<^verbatim>\<open>0-9\<close> is a member too, as are the underscore, the backslash and the dot.
\<close>

definition FROM_DIRECTIVE_PATTERN :: regex where
  "FROM_DIRECTIVE_PATTERN =
     seqs [Bol, Star (Class [WhiteSpace]),
           Lit CHR ''F'', Lit CHR ''R'', Lit CHR ''O'', Lit CHR ''M'',
           Star (Class [WhiteSpace]),
           Group 1 (Star (Class [WordChar, Single CHR ''-'', Single CHR ''/'', Single CHR '':''])),
           Opt (Group 2 (seqs
             [Star (Class [WhiteSpace]), Lit CHR ''A'', Lit CHR ''S'', Star (Class [WhiteSpace]),
              Class [Range CHR ''a'' CHR ''z''],
              Star (Class [Range CHR ''a'' CHR ''z'', Range CHR ''0'' CHR ''9'', Single CHR ''-'',
                           Single CHR ''_'', Single (CHR 0x5C), Single CHR ''.''])])),
           Eol]"

text \<open>The flag \<open>i\<close> of the literal; a line is recognised when the match is not \<^verbatim>\<open>null\<close>.\<close>

definition matchFromDirective :: "jsString \<Rightarrow> captures option" where
  "matchFromDirective line = exec True FROM_DIRECTIVE_PATTERN line"

definition recognizesFrom :: "jsString \<Rightarrow> bool" where
  "recognizesFrom line = (matchFromDirective line \<noteq> None)"

subsection \<open>The pattern as the specification writes it\<close>

text \<open>
  \<^verbatim>\<open>^\s*FROM\s+([\w\-/:.]+)(\s+AS\s+[a-zA-Z][\w.\-]*)?\s*$\<close>, case-insensitive: the
  specification's words, kept apart from the code's pattern to compare the two.
\<close>

definition SPEC_FROM_PATTERN :: regex where
  "SPEC_FROM_PATTERN =
     seqs [Bol, Star (Class [WhiteSpace]),
           Lit CHR ''F'', Lit CHR ''R'', Lit CHR ''O'', Lit CHR ''M'',
           Plus (Class [WhiteSpace]),
           Group 1 (Plus (Class [WordChar, Single CHR ''-'', Single CHR ''/'', Single CHR '':'',
                                 Single CHR ''.''])),
           Opt (Group 2 (seqs
             [Plus (Class [WhiteSpace]), Lit CHR ''A'', Lit CHR ''S'', Plus (Class [WhiteSpace]),
              Class [Range CHR ''a'' CHR ''z'', Range CHR ''A'' CHR ''Z''],
              Star (Class [WordChar, Single CHR ''.'', Single CHR ''-''])])),
           Star (Class [WhiteSpace]),
           Eol]"

definition specRecognizesFrom :: "jsString \<Rightarrow> bool" where
  "specRecognizesFrom line = (exec True SPEC_FROM_PATTERN line \<noteq> None)"

subsection \<open>What a pattern matches, stated without backtracking\<close>

text \<open>
  \<open>matchRel n ic r s s'\<close>: on an input of \<open>n\<close> characters, the pattern \<open>r\<close> can consume the
  front of the rest \<open>s\<close> and leave \<open>s'\<close>. It is the declarative reading of a pattern, used to
  describe what \<open>run\<close> accepts; the index of a state is \<open>n\<close> minus the length of its rest.
\<close>

fun matchRel :: "nat \<Rightarrow> bool \<Rightarrow> regex \<Rightarrow> jsString \<Rightarrow> jsString \<Rightarrow> bool" where
  "matchRel n ic Bol s s' = (s' = s \<and> length s = n)"
| "matchRel n ic Eol s s' = (s' = s \<and> s = [])"
| "matchRel n ic (Lit a) s s' = (\<exists>c. s = c # s' \<and> itemMatches ic (Single a) c)"
| "matchRel n ic (Class items) s s' = (\<exists>c. s = c # s' \<and> classMatches ic items c)"
| "matchRel n ic Empty s s' = (s' = s)"
| "matchRel n ic (Seq r1 r2) s s' = (\<exists>m. matchRel n ic r1 s m \<and> matchRel n ic r2 m s')"
| "matchRel n ic (Star r) s s' = (matchRel n ic r)\<^sup>*\<^sup>* s s'"
| "matchRel n ic (Opt r) s s' = (matchRel n ic r s s' \<or> s' = s)"
| "matchRel n ic (Group k r) s s' = matchRel n ic r s s'"

text \<open>
  The tests on code units the statement about the FROM pattern is written with; white space
  is the set of \<open>\s\<close>.
\<close>

definition asciiLetter :: "nat \<Rightarrow> bool" where
  "asciiLetter n = ((65 \<le> n \<and> n \<le> 90) \<or> (97 \<le> n \<and> n \<le> 122))"

definition asciiDigit :: "nat \<Rightarrow> bool" where
  "asciiDigit n = (48 \<le> n \<and> n \<le> 57)"

definition jsWhiteSpace :: "nat \<Rightarrow> bool" where
  "jsWhiteSpace n =
     ((9 \<le> n \<and> n \<le> 13) \<or> n = 32 \<or> n = 160 \<or> n = 5760 \<or> (8192 \<le> n \<and> n \<le> 8202) \<or>
      n = 8232 \<or> n = 8233 \<or> n = 8239 \<or> n = 8287 \<or> n = 12288 \<or> n = 65279)"

text \<open>
  The code units the code's pattern takes in an image reference, and in an alias after its
  first letter. The second class of the pattern, \<^verbatim>\<open>[a-z0-9-_\\.]\<close>, holds the backslash;
  \<open>aliasChar\<close> is that class without it.
\<close>

definition imageRefChar :: "nat \<Rightarrow> bool" where
  "imageRefChar n =
     (asciiLetter n \<or> asciiDigit n \<or> n \<in> {code CHR ''_'', code CHR ''-'', code CHR ''/'', code CHR '':''})"

definition aliasTailChar :: "nat \<Rightarrow> bool" where
  "aliasTailChar n =
     (asciiLetter n \<or> asciiDigit n \<or>
      n \<in> {code CHR ''-'', code CHR ''_'', code (CHR 0x5C), code CHR ''.''})"

definition aliasChar :: "nat \<Rightarrow> bool" where
  "aliasChar n =
     (asciiLetter n \<or> asciiDigit n \<or> n \<in> {code CHR ''-'', code CHR ''_'', code CHR ''.''})"

text \<open>
  The shape of a line the FROM pattern accepts, with the class of the alias after its first
  letter left open: optional white space, the letters of FROM in either case, optional white
  space, a run of image reference characters, and then nothing, or optional white space, the
  letters of AS in either case, optional white space, a letter and a run of \<open>tail\<close> characters.
\<close>

definition fromLineShape :: "(nat \<Rightarrow> bool) \<Rightarrow> jsString \<Rightarrow> bool" where
  "fromLineShape tail line =
     (\<exists>ws1 cF cR cO cM ws2 img rest.
        line = ws1 @ cF # cR # cO # cM # ws2 @ img @ rest \<and>
        list_all jsWhiteSpace ws1 \<and>
        cF \<in> {code CHR ''F'', code CHR ''f''} \<and> cR \<in> {code CHR ''R'', code CHR ''r''} \<and>
        cO \<in> {code CHR ''O'', code CHR ''o''} \<and> cM \<in> {code CHR ''M'', code CHR ''m''} \<and>
        list_all jsWhiteSpace ws2 \<and> list_all imageRefChar img \<and>
        (rest = [] \<or>
         (\<exists>ws3 cA cS ws4 c cs.
            rest = ws3 @ cA # cS # ws4 @ c # cs \<and>
            list_all jsWhiteSpace ws3 \<and>
            cA \<in> {code CHR ''A'', code CHR ''a''} \<and> cS \<in> {code CHR ''S'', code CHR ''s''} \<and>
            list_all jsWhiteSpace ws4 \<and> asciiLetter c \<and> list_all tail cs)))"

section \<open>The Dockerfile parser of the specification\<close>

text \<open>
  Modelled from the spec: the Dockerfile parser \<^verbatim>\<open>parseDockerfile\<close> is not among the
  sources (only \<^verbatim>\<open>FROM_DIRECTIVE_PATTERN\<close>, which it applies to FROM lines, is). The record
  is the DirectiveRecord of the data model; line numbers and columns count from 0, and
  strings are JavaScript strings.
\<close>

record DirectiveRecord =
  instruction :: jsString
  argumentText :: jsString
  stageAlias :: "jsString option"
  lineNumber :: nat
  columnSpan :: "nat \<times> nat"

text \<open>Modelled from the spec: the text is cut into lines at each line feed.\<close>

fun splitOn :: "nat \<Rightarrow> jsString \<Rightarrow> jsString list" where
  "splitOn d [] = [[]]"
| "splitOn d (c # cs) =
     (if c = d then [] # splitOn d cs
      else (case splitOn d cs of l # ls \<Rightarrow> (c # l) # ls | [] \<Rightarrow> [[c]]))"

text \<open>
  Modelled from the spec: ``continuation lines via trailing backslash are joined before
  tokenizing''. A logical line keeps the number of its first line.
\<close>

fun joinContinuations :: "(nat \<times> jsString) list \<Rightarrow> (nat \<times> jsString) list" where
  "joinContinuations [] = []"
| "joinContinuations [(n, l)] = [(n, l)]"
| "joinContinuations ((n, l) # (m, l') # rest) =
     (if l \<noteq> [] \<and> last l = code (CHR 0x5C)
      then joinContinuations ((n, butlast l @ l') # rest)
      else (n, l) # joinContinuations ((m, l') # rest))"

text \<open>
  Modelled from the spec: a blank line, or a ``line whose first non-whitespace character
  is \<^verbatim>\<open>#\<close>'', is discarded.
\<close>

definition isBlankOrComment :: "jsString \<Rightarrow> bool" where
  "isBlankOrComment l =
     (case dropWhile jsWhiteSpace l of [] \<Rightarrow> True | c # cs \<Rightarrow> c = code CHR ''#'')"

text \<open>
  Modelled from the spec: the instruction is the ``upper-cased keyword''; a keyword is made
  of ASCII letters, and the upper case of a small one is 32 code units below it.
\<close>

definition toUpper :: "nat \<Rightarrow> nat" where
  "toUpper n = (if 97 \<le> n \<and> n \<le> 122 then n - 32 else n)"

text \<open>
  Modelled from the spec: the alias is what the optional group of the pattern holds after
  its white space and its two letters \<^verbatim>\<open>AS\<close>.
\<close>

definition aliasOfGroup :: "jsString \<Rightarrow> jsString" where
  "aliasOfGroup g = dropWhile jsWhiteSpace (drop 2 (dropWhile jsWhiteSpace g))"

text \<open>
  Modelled from the spec: a line gives the ``leading instruction keyword (longest run of
  alphabetic characters from line start) and the remainder as argument text''; a keyword
  that is not a known instruction gives an \<^verbatim>\<open>UNKNOWN\<close> record; on a FROM line the
  stage-alias pattern is applied and, on match, yields the alias if present. The table of
  known instructions is not given by the specification and is the parameter \<open>known\<close>; the
  pattern is the one of the code.
\<close>

definition toDirective :: "jsString list \<Rightarrow> nat \<times> jsString \<Rightarrow> DirectiveRecord" where
  "toDirective known nl =
     (let n = fst nl; l = snd nl;
          start = length (takeWhile jsWhiteSpace l);
          body = dropWhile jsWhiteSpace l;
          keyword = map toUpper (takeWhile asciiLetter body);
          instr = (if keyword \<in> set known then keyword else str ''UNKNOWN'')
      in \<lparr>instruction = instr,
          argumentText = dropWhile asciiLetter body,
          stageAlias =
            (if instr = str ''FROM''
             then (case matchFromDirective l of
                     None \<Rightarrow> None
                   | Some caps \<Rightarrow> map_option aliasOfGroup (caps 2))
             else None),
          lineNumber = n,
          columnSpan = (start, length l)\<rparr>)"

text \<open>
  Modelled from the spec: \<^verbatim>\<open>parse(text) -> sequence<DirectiveRecord>\<close>: logical lines, blank
  and comment lines discarded, one record for each line that remains.
\<close>

definition parseDockerfile :: "jsString list \<Rightarrow> jsString \<Rightarrow> DirectiveRecord list" where
  "parseDockerfile known text =
     map (toDirective known)
       (filter (\<lambda>nl. \<not> isBlankOrComment (snd nl))
          (joinContinuations (enumerate 0 (splitOn (code (CHR 0x0A)) text))))"

section \<open>The Compose structural parser of the specification\<close>

text \<open>
  Modelled from the spec: the Compose structural parser is not among the sources. A KeyNode
  has the fields of the data model; the tree is ``an arena of nodes addressed by index, with
  each node storing a child-index list and a single parent index''. The root is node 0; its
  indent level is \<open>-1\<close>, below that of every line.
\<close>

datatype ValueKind = Mapping | Scalar | Sequence

record KeyNode =
  keyPath :: "jsString list"
  key :: jsString
  valueKind :: ValueKind
  indentLevel :: int
  lineNumber :: nat
  columnSpan :: "nat \<times> nat"
  children :: "nat list"
  parent :: "nat option"

text \<open>
  Modelled from the spec: a ParseResult ``owns the KeyNode tree plus a flat offset index
  (sorted array of (lineNumber, columnSpan) -> node)''.
\<close>

record ParseResult =
  nodes :: "KeyNode list"
  offsetIndex :: "((nat \<times> nat \<times> nat) \<times> nat) list"

text \<open>Modelled from the spec: the ``synthetic KeyNode with empty keyPath''.\<close>

definition rootNode :: KeyNode where
  "rootNode =
     \<lparr>keyPath = [], key = [], valueKind = Mapping, indentLevel = - 1, lineNumber = 0,
      columnSpan = (0, 0), children = [], parent = None\<rparr>"

text \<open>
  Modelled from the spec: the parser ``operates line-by-line''. A line ends at a line feed;
  the carriage return of a CRLF line end is not part of the line.
\<close>

definition stripCR :: "jsString \<Rightarrow> jsString" where
  "stripCR l = (if l \<noteq> [] \<and> last l = code (CHR 0x0D) then butlast l else l)"

definition composeLines :: "jsString \<Rightarrow> (nat \<times> jsString) list" where
  "composeLines text = enumerate 0 (map stripCR (splitOn (code (CHR 0x0A)) text))"

text \<open>
  Modelled from the spec: a mapping-key line is \<^verbatim>\<open>key:\<close> or \<^verbatim>\<open>key: value\<close>. The key is the
  text before the first colon; the colon ends the line or is followed by a space. The
  result is the key and whether a value follows it.
\<close>

definition keyOf :: "jsString \<Rightarrow> (jsString \<times> bool) option" where
  "keyOf s =
     (let k = takeWhile (\<lambda>c. c \<noteq> code CHR '':'') s;
          after = dropWhile (\<lambda>c. c \<noteq> code CHR '':'') s
      in case after of
           [] \<Rightarrow> None
         | colon # v \<Rightarrow>
             if k = [] then None
             else (case v of
                     [] \<Rightarrow> Some (k, False)
                   | c # cs \<Rightarrow>
                       if c = code CHR '' '' then Some (k, dropWhile (\<lambda>c. c = code CHR '' '') cs \<noteq> [])
                       else None))"

text \<open>What a recognised line contributes to its node.\<close>

record LineInfo =
  lineIndent :: nat
  lineKey :: jsString
  lineKind :: ValueKind
  lineSpan :: "nat \<times> nat"

text \<open>
  Modelled from the spec: ``for each non-blank, non-comment line, computes indentation width
  (count of leading spaces; tabs are rejected as structurally invalid and the line is
  skipped, not fatal), and classifies the line as a mapping-key line, a sequence-item line
  (\<^verbatim>\<open>- value\<close> or \<^verbatim>\<open>- key: value\<close>), or a continuation/unrecognized line (skipped)''. \<open>None\<close>
  is a skipped line. A key with no value opens a mapping, a key with a value is a scalar,
  and an item line has kind sequence; the key of \<^verbatim>\<open>- value\<close> is the value's text.
\<close>

definition classifyLine :: "jsString \<Rightarrow> LineInfo option" where
  "classifyLine l =
     (let indent = length (takeWhile (\<lambda>c. c = code CHR '' '') l);
          rest = dropWhile (\<lambda>c. c = code CHR '' '') l
      in case rest of
           [] \<Rightarrow> None
         | c # cs \<Rightarrow>
             if c = code CHR ''#'' then None
             else if c = code (CHR 0x09) then None
             else if c = code CHR ''-'' \<and> (cs = [] \<or> hd cs = code CHR '' '') then
               (let item = dropWhile (\<lambda>c. c = code CHR '' '') cs
                in Some \<lparr>lineIndent = indent,
                         lineKey = (case keyOf item of Some (k, hasValue) \<Rightarrow> k | None \<Rightarrow> item),
                         lineKind = Sequence,
                         lineSpan = (indent, length l)\<rparr>)
             else (case keyOf rest of
                     None \<Rightarrow> None
                   | Some (k, hasValue) \<Rightarrow>
                       Some \<lparr>lineIndent = indent, lineKey = k,
                             lineKind = (if hasValue then Scalar else Mapping),
                             lineSpan = (indent, length l)\<rparr>))"

text \<open>
  The two places where an implementation of the stack algorithm could fail: the stack of
  open nodes is empty when a parent is needed, or an index points outside the arena.
\<close>

datatype parseError = EmptyStack | NodeOutOfRange

text \<open>
  Modelled from the spec: ``on a new line, pop all stack entries whose indentLevel >= the
  new line's indentLevel, then attach the new KeyNode as a child of the (now topmost) stack
  entry, then push it''. The state is the arena and the stack of open nodes, top first.
\<close>

definition openNode ::
  "KeyNode list \<times> nat list \<Rightarrow> nat \<Rightarrow> LineInfo \<Rightarrow> parseError + (KeyNode list \<times> nat list)" where
  "openNode st n info =
     (let arena = fst st; stack = snd st in
      if \<not> list_all (\<lambda>i. i < length arena) stack then Inl NodeOutOfRange
      else
        (case dropWhile (\<lambda>i. indentLevel (arena ! i) \<ge> int (lineIndent info)) stack of
           [] \<Rightarrow> Inl EmptyStack
         | p # below \<Rightarrow>
             (let up = arena ! p;
                  new = \<lparr>keyPath = keyPath up @ [lineKey info], key = lineKey info,
                         valueKind = lineKind info, indentLevel = int (lineIndent info),
                         lineNumber = n, columnSpan = lineSpan info, children = [],
                         parent = Some p\<rparr>
              in Inr (arena[p := up\<lparr>children := children up @ [length arena]\<rparr>] @ [new],
                      length arena # p # below))))"

definition parseStep ::
  "KeyNode list \<times> nat list \<Rightarrow> nat \<times> jsString \<Rightarrow> parseError + (KeyNode list \<times> nat list)" where
  "parseStep st nl =
     (case classifyLine (snd nl) of
        None \<Rightarrow> Inr st
      | Some info \<Rightarrow> openNode st (fst nl) info)"

fun parseLines ::
  "KeyNode list \<times> nat list \<Rightarrow> (nat \<times> jsString) list \<Rightarrow> parseError + (KeyNode list \<times> nat list)" where
  "parseLines st [] = Inr st"
| "parseLines st (nl # rest) =
     (case parseStep st nl of
        Inl e \<Rightarrow> Inl e
      | Inr st' \<Rightarrow> parseLines st' rest)"

text \<open>Modelled from the spec: the flat offset index, one entry for each node but the root.\<close>

definition buildIndex :: "KeyNode list \<Rightarrow> ((nat \<times> nat \<times> nat) \<times> nat) list" where
  "buildIndex arena =
     map (\<lambda>i. ((lineNumber (arena ! i), columnSpan (arena ! i)), i)) [1..<length arena]"

text \<open>Modelled from the spec: \<^verbatim>\<open>parseCompose(text) -> ParseResult\<close>, line by line.\<close>

definition parseCompose :: "jsString \<Rightarrow> parseError + ParseResult" where
  "parseCompose text =
     (case parseLines ([rootNode], [0]) (composeLines text) of
        Inl e \<Rightarrow> Inl e
      | Inr st \<Rightarrow> Inr \<lparr>nodes = fst st, offsetIndex = buildIndex (fst st)\<rparr>)"








section \<open>Properties of computeItems\<close>

lemma repoTagsLoop_eq:
  "repoTagsLoop img tags j items = items @ map (createItem img) (drop j tags)"
proof (induction img tags j items rule: repoTagsLoop.induct)
  case (1 img tags j items)
  show ?case
  proof (cases "j < length tags")
    case True
    then have "drop j tags = tags ! j # drop (Suc j) tags"
      by (simp add: Cons_nth_drop_Suc)
    with True "1.IH" show ?thesis
      by (subst repoTagsLoop.simps) simp
  next
    case False
    then show ?thesis
      by (subst repoTagsLoop.simps) simp
  qed
qed

lemma imagesLoop_eq:
  "imagesLoop images i items = items @ concat (map itemsOfImage (drop i images))"
proof (induction images i items rule: imagesLoop.induct)
  case (1 images i items)
  show ?case
  proof (cases "i < length images")
    case True
    then have d: "drop i images = images ! i # drop (Suc i) images"
      by (simp add: Cons_nth_drop_Suc)
    have step: "(case RepoTags (images ! i) of
                   None \<Rightarrow> items @ [createItem (images ! i) ''<none>:<none>'']
                 | Some tags \<Rightarrow> repoTagsLoop (images ! i) tags 0 items)
                = items @ itemsOfImage (images ! i)"
      by (simp add: itemsOfImage_def repoTagsLoop_eq createItem_def split: option.split)
    from True "1.IH" show ?thesis
      by (subst imagesLoop.simps) (simp add: d step)
  next
    case False
    then show ?thesis
      by (subst imagesLoop.simps) simp
  qed
qed

lemma length_concat_itemsOfImage:
  "length (concat (map itemsOfImage images)) =
     (\<Sum>img \<leftarrow> images. case RepoTags img of None \<Rightarrow> 1 | Some tags \<Rightarrow> length tags)"
  by (induction images) (auto simp: itemsOfImage_def split: option.split)

text \<open>
  C10. For every list of image descriptors, \<^verbatim>\<open>computeItems\<close> returns, in input order, one
  item per repo tag of each image and one item labelled \<^verbatim>\<open><none>:<none>\<close> for each image
  whose \<^verbatim>\<open>RepoTags\<close> is absent; when \<^verbatim>\<open>includeAll\<close> is true and the list is non-empty,
  exactly one more item, labelled \<^verbatim>\<open>All Images\<close>, comes first. The length of the result is
  the sum over the images of the number of repo tags (1 when absent), plus 1 in the
  \<^verbatim>\<open>includeAll\<close> non-empty case.
\<close>

theorem computeItems_items_and_length:
  "computeItems images includeAll =
     (if includeAll = Some True \<and> images \<noteq> []
      then [\<lparr>label = ''All Images'', imageDesc = None\<rparr>] else [])
     @ concat (map (\<lambda>img. case RepoTags img of
                      None \<Rightarrow> [\<lparr>label = ''<none>:<none>'', imageDesc = Some img\<rparr>]
                    | Some tags \<Rightarrow> map (createItem img) tags) images)
   \<and> length (computeItems images includeAll) =
       (\<Sum>img \<leftarrow> images. case RepoTags img of None \<Rightarrow> 1 | Some tags \<Rightarrow> length tags)
       + (if includeAll = Some True \<and> images \<noteq> [] then 1 else 0)"
proof -
  have fold: "(\<lambda>img. case RepoTags img of
                      None \<Rightarrow> [\<lparr>label = ''<none>:<none>'', imageDesc = Some img\<rparr>]
                    | Some tags \<Rightarrow> map (createItem img) tags) = itemsOfImage"
    by (rule ext) (simp add: itemsOfImage_def)
  show ?thesis
    unfolding fold
    by (auto simp: computeItems_def Let_def imagesLoop_eq length_concat_itemsOfImage)
qed

section \<open>Properties of the routing\<close>

lemma providersFor_compose:
  "DockerComposeHoverProvider \<in> set (providersFor glob d) \<longleftrightarrow>
     languageId d = ''yaml'' \<and> uriScheme d = ''file'' \<and> glob COMPOSE_FILE_GLOB_PATTERN (fsPath d)"
  "DockerComposeCompletionItemProvider \<in> set (providersFor glob d) \<longleftrightarrow>
     languageId d = ''yaml'' \<and> uriScheme d = ''file'' \<and> glob COMPOSE_FILE_GLOB_PATTERN (fsPath d)"
  by (auto simp: providersFor_def registeredProviders_def selectorMatches_def
        filterMatches_def YAML_MODE_ID_def DOCUMENT_SELECTOR_def)

lemma providersFor_dockerfile:
  "DockerfileCompletionItemProvider \<in> set (providersFor glob d) \<longleftrightarrow>
     languageId d = ''dockerfile'' \<and> uriScheme d = ''file''"
  by (auto simp: providersFor_def registeredProviders_def selectorMatches_def
        filterMatches_def YAML_MODE_ID_def DOCUMENT_SELECTOR_def)

text \<open>
  C8 as stated fails: the path alone does not decide. Take a glob matcher that accepts every
  path, so that the path below matches the pattern. A document with that path whose language
  is \<^verbatim>\<open>plaintext\<close> is not routed to the Compose providers, and neither is one on the scheme
  \<^verbatim>\<open>untitled\<close>; the same path as a YAML document on the scheme \<^verbatim>\<open>file\<close> is.
\<close>

theorem compose_glob_counterexample:
  "(\<lambda>p path. True) COMPOSE_FILE_GLOB_PATTERN ''/app/docker-compose.yml''
   \<and> DockerComposeHoverProvider
       \<notin> set (providersFor (\<lambda>p path. True)
                \<lparr>languageId = ''plaintext'', uriScheme = ''file'', fsPath = ''/app/docker-compose.yml''\<rparr>)
   \<and> DockerComposeCompletionItemProvider
       \<notin> set (providersFor (\<lambda>p path. True)
                \<lparr>languageId = ''yaml'', uriScheme = ''untitled'', fsPath = ''/app/docker-compose.yml''\<rparr>)
   \<and> DockerComposeHoverProvider
       \<in> set (providersFor (\<lambda>p path. True)
                \<lparr>languageId = ''yaml'', uriScheme = ''file'', fsPath = ''/app/docker-compose.yml''\<rparr>)"
  by (simp add: providersFor_compose)

text \<open>
  C8, amended. The glob pattern that classifies Compose files is the string
  \<^verbatim>\<open>**/[dD]ocker-[cC]ompose*.{yaml,yml}\<close>; it is the pattern of the filter both Compose
  providers are registered with, and a document is routed to them exactly when its language
  is \<^verbatim>\<open>yaml\<close>, its scheme is \<^verbatim>\<open>file\<close> and its path matches this pattern.
\<close>

theorem compose_glob_and_routing:
  "COMPOSE_FILE_GLOB_PATTERN = ''**/[dD]ocker-[cC]ompose*.{yaml,yml}''
   \<and> YAML_MODE_ID = \<lparr>language = Some ''yaml'', scheme = Some ''file'',
                       pattern = Some ''**/[dD]ocker-[cC]ompose*.{yaml,yml}''\<rparr>
   \<and> (DockerComposeHoverProvider \<in> set (providersFor glob d)
        \<longleftrightarrow> languageId d = ''yaml'' \<and> uriScheme d = ''file''
            \<and> glob ''**/[dD]ocker-[cC]ompose*.{yaml,yml}'' (fsPath d))
   \<and> (DockerComposeCompletionItemProvider \<in> set (providersFor glob d)
        \<longleftrightarrow> languageId d = ''yaml'' \<and> uriScheme d = ''file''
            \<and> glob ''**/[dD]ocker-[cC]ompose*.{yaml,yml}'' (fsPath d))"
  by (simp add: providersFor_compose YAML_MODE_ID_def)
     (simp add: COMPOSE_FILE_GLOB_PATTERN_def)

text \<open>
  C9 as stated fails twice: the constant is not the string
  \<^verbatim>\<open>**/{*.dockerfile,[dD]ockerfile}\<close>, and a document is routed to the Dockerfile provider
  by its language alone: with a glob matcher that matches nothing, a \<^verbatim>\<open>dockerfile\<close>
  document named \<^verbatim>\<open>notes.txt\<close> is still routed.
\<close>

theorem dockerfile_glob_counterexample:
  "DOCKERFILE_GLOB_PATTERN \<noteq> ''**/{*.dockerfile,[dD]ockerfile}''
   \<and> DockerfileCompletionItemProvider
       \<in> set (providersFor (\<lambda>p path. False)
                \<lparr>languageId = ''dockerfile'', uriScheme = ''file'', fsPath = ''/app/notes.txt''\<rparr>)"
  by (simp add: DOCKERFILE_GLOB_PATTERN_def providersFor_dockerfile)

text \<open>
  C9, amended. The Dockerfile glob constant is \<^verbatim>\<open>**/{*.dockerfile,[dD]ocker[fF]ile}\<close>: only
  the letters d and f of the literal may be of either case. The selector of the Dockerfile
  provider carries no pattern: a document is routed to it exactly when its language is
  \<^verbatim>\<open>dockerfile\<close> and its scheme is \<^verbatim>\<open>file\<close>, whatever its path.
\<close>

theorem dockerfile_glob_and_routing:
  "DOCKERFILE_GLOB_PATTERN = ''**/{*.dockerfile,[dD]ocker[fF]ile}''
   \<and> map pattern DOCUMENT_SELECTOR = [None]
   \<and> (DockerfileCompletionItemProvider \<in> set (providersFor glob d)
        \<longleftrightarrow> languageId d = ''dockerfile'' \<and> uriScheme d = ''file'')"
  by (simp add: providersFor_dockerfile DOCUMENT_SELECTOR_def)
     (simp add: DOCKERFILE_GLOB_PATTERN_def)

section \<open>Properties of the matcher\<close>

lemma matchRel_suffix:
  "matchRel n ic r s s' \<Longrightarrow> \<exists>u. s = u @ s'"
proof (induction r arbitrary: s s')
  case (Star r)
  from Star.prems have "(matchRel n ic r)\<^sup>*\<^sup>* s s'"
    by simp
  then show ?case
  proof (induction rule: rtranclp_induct)
    case base
    then show ?case by simp
  next
    case (step y z)
    from Star.IH [OF step.hyps(2)] step.IH show ?case
      by auto
  qed
next
  case (Seq r1 r2)
  then show ?case
    by (metis append.assoc matchRel.simps(6))
qed auto

lemma run_sound:
  "(caps', i', s') \<in> set (run ic r (caps, i, s)) \<Longrightarrow> i + length s = n \<Longrightarrow>
     matchRel n ic r s s' \<and> i' + length s' = n"
proof (induction ic r "(caps, i, s)" arbitrary: caps i s caps' i' s' rule: run.induct)
  case (1 ic caps i s)
  then show ?case by (auto split: if_splits)
next
  case (2 ic caps i s)
  then show ?case by (auto split: if_splits)
next
  case (3 ic a caps i s)
  then show ?case by (auto split: list.splits if_splits)
next
  case (4 ic items caps i s)
  then show ?case by (auto split: list.splits if_splits)
next
  case (5 ic)
  then show ?case by simp
next
  case (6 ic r1 r2)
  from "6.prems"(1) obtain caps1 i1 s1 where
    m: "(caps1, i1, s1) \<in> set (run ic r1 (caps, i, s))" and
    e: "(caps', i', s') \<in> set (run ic r2 (caps1, i1, s1))"
    by auto
  from "6.hyps"(1) [OF m "6.prems"(2)]
  have a: "matchRel n ic r1 s s1" and b: "i1 + length s1 = n"
    by simp_all
  from "6.hyps"(2) [OF m e b] a show ?case
    by auto
next
  case (7 ic r caps i s)
  show ?case
  proof (cases "(caps', i', s') = (caps, i, s)")
    case True
    with "7.prems"(2) show ?thesis by simp
  next
    case False
    from "7.prems"(1)
    have "(caps', i', s') \<in> set (concat (map (\<lambda>(caps', i', s').
                    if length s' < length s then run ic (Star r) (caps', i', s') else [])
                 (run ic r (caps, i, s))) @ [(caps, i, s)])"
      by (subst (asm) run_Star)
    with False obtain caps1 i1 s1 where
      m: "(caps1, i1, s1) \<in> set (run ic r (caps, i, s))" and
      shorter: "length s1 < length s" and
      e: "(caps', i', s') \<in> set (run ic (Star r) (caps1, i1, s1))"
      by (auto split: if_splits)
    from "7.hyps"(1) [OF m "7.prems"(2)]
    have a: "matchRel n ic r s s1" and b: "i1 + length s1 = n"
      by simp_all
    from "7.hyps"(2) [OF m refl refl shorter e b]
    have c: "(matchRel n ic r)\<^sup>*\<^sup>* s1 s'" and d: "i' + length s' = n"
      by simp_all
    from a c have "(matchRel n ic r)\<^sup>*\<^sup>* s s'"
      by (rule converse_rtranclp_into_rtranclp)
    with d show ?thesis by simp
  qed
next
  case (8 ic r)
  from "8.prems"(1) consider "(caps', i', s') \<in> set (run ic r (caps, i, s))" | "(caps', i', s') = (caps, i, s)"
    by auto
  then show ?case
  proof cases
    case 1
    from "8.hyps" [OF 1 "8.prems"(2)] show ?thesis by simp
  next
    case 2
    with "8.prems"(2) show ?thesis by simp
  qed
next
  case (9 ic k r caps i s)
  from "9.prems"(1) obtain caps1 where "(caps1, i', s') \<in> set (run ic r (caps, i, s))"
    by auto
  from "9.hyps" [OF this "9.prems"(2)] show ?case by simp
qed

lemma run_complete:
  "matchRel n ic r s s' \<Longrightarrow> i + length s = n \<Longrightarrow>
     \<exists>caps'. (caps', n - length s', s') \<in> set (run ic r (caps, i, s))"
proof (induction r arbitrary: s s' i caps)
  case Bol
  then show ?case by auto
next
  case Eol
  then show ?case by auto
next
  case (Lit a)
  then show ?case by auto
next
  case (Class items)
  then show ?case by auto
next
  case Empty
  then show ?case by auto
next
  case (Seq r1 r2)
  from Seq.prems(1) obtain m where a: "matchRel n ic r1 s m" and b: "matchRel n ic r2 m s'"
    by auto
  from Seq.IH(1) [OF a Seq.prems(2)] obtain caps1 where
    c: "(caps1, n - length m, m) \<in> set (run ic r1 (caps, i, s))"
    by blast
  from matchRel_suffix [OF a] Seq.prems(2) have "(n - length m) + length m = n"
    by auto
  from Seq.IH(2) [OF b this] obtain caps2 where
    "(caps2, n - length s', s') \<in> set (run ic r2 (caps1, n - length m, m))"
    by blast
  with c have "(caps2, n - length s', s') \<in> set (run ic (Seq r1 r2) (caps, i, s))"
    unfolding run.simps set_concat set_map by blast
  then show ?case
    by (rule exI [of _ caps2])
next
  case (Star r)
  from Star.prems(1) have "(matchRel n ic r)\<^sup>*\<^sup>* s s'"
    by simp
  then show ?case
    using Star.prems(2)
  proof (induction arbitrary: i caps rule: converse_rtranclp_induct)
    case base
    have "(caps, i, s') \<in> set (run ic (Star r) (caps, i, s'))"
      by (subst run_Star) simp
    moreover from base have "n - length s' = i" by simp
    ultimately show ?case by blast
  next
    case (step y z)
    from Star.IH [OF step.hyps(1) step.prems] obtain caps1 where
      c: "(caps1, n - length z, z) \<in> set (run ic r (caps, i, y))"
      by blast
    from matchRel_suffix [OF step.hyps(1)] obtain u where u: "y = u @ z"
      by blast
    show ?case
    proof (cases "u = []")
      case True
      with u step.prems have "i + length z = n" by simp
      from step.IH [OF this, of caps] u True show ?thesis by simp
    next
      case False
      with u have shorter: "length z < length y" by simp
      from u step.prems have "(n - length z) + length z = n" by simp
      from step.IH [OF this] obtain caps2 where
        "(caps2, n - length s', s') \<in> set (run ic (Star r) (caps1, n - length z, z))"
        by blast
      then have "(caps2, n - length s', s') \<in> set (
              (\<lambda>(caps', i', s'). if length s' < length y then run ic (Star r) (caps', i', s') else [])
                (caps1, n - length z, z))"
        using shorter by simp
      with c have "(caps2, n - length s', s') \<in> set (concat (map
              (\<lambda>(caps', i', s'). if length s' < length y then run ic (Star r) (caps', i', s') else [])
              (run ic r (caps, i, y))))"
        unfolding set_concat set_map by blast
      then have "(caps2, n - length s', s') \<in> set (run ic (Star r) (caps, i, y))"
        by (subst run_Star) simp
      then show ?thesis by blast
    qed
  qed
next
  case (Opt r)
  from Opt.prems(1) consider "matchRel n ic r s s'" | "s' = s"
    by auto
  then show ?case
  proof cases
    case 1
    from Opt.IH [OF 1 Opt.prems(2)] obtain caps1 where
      "(caps1, n - length s', s') \<in> set (run ic r (caps, i, s))"
      by blast
    then have "(caps1, n - length s', s') \<in> set (run ic (Opt r) (caps, i, s))"
      by simp
    then show ?thesis
      by (rule exI [of _ caps1])
  next
    case 2
    from Opt.prems(2) have "n - length s = i"
      by simp
    then have here: "(caps, n - length s, s) \<in> set (run ic (Opt r) (caps, i, s))"
      by simp
    show ?thesis
      unfolding 2 by (rule exI [of _ caps]) (rule here)
  qed
next
  case (Group k r)
  from Group.prems(1) have "matchRel n ic r s s'" by simp
  from Group.IH [OF this Group.prems(2)] obtain caps1 where
    c: "(caps1, n - length s', s') \<in> set (run ic r (caps, i, s))"
    by blast
  have "(caps1(k \<mapsto> take (n - length s' - i) s), n - length s', s')
          \<in> set (run ic (Group k r) (caps, i, s))"
    unfolding run.simps set_map
    by (rule rev_image_eqI [OF c]) simp
  then show ?case
    by (rule exI [of _ "caps1(k \<mapsto> take (n - length s' - i) s)"])
qed

lemma run_nonempty_iff:
  "run ic r (caps, 0, s) \<noteq> [] \<longleftrightarrow> (\<exists>s'. matchRel (length s) ic r s s')"
proof
  assume "run ic r (caps, 0, s) \<noteq> []"
  then obtain caps' i' s' where "(caps', i', s') \<in> set (run ic r (caps, 0, s))"
    by (cases "run ic r (caps, 0, s)") auto
  from run_sound [OF this, of "length s"] show "\<exists>s'. matchRel (length s) ic r s s'"
    by auto
next
  assume "\<exists>s'. matchRel (length s) ic r s s'"
  then obtain s' where "matchRel (length s) ic r s s'" ..
  from run_complete [OF this, of 0 caps] show "run ic r (caps, 0, s) \<noteq> []"
    by auto
qed

lemma execFrom_Bol_later:
  "execFrom ic (Seq Bol r) (Suc i) s = None"
proof (induction s arbitrary: i)
  case Nil
  show ?case by (subst execFrom.simps) simp
next
  case (Cons c cs)
  show ?case by (subst execFrom.simps) (simp add: Cons.IH)
qed

lemma exec_Bol_iff:
  "exec ic (Seq Bol r) s \<noteq> None \<longleftrightarrow> (\<exists>s'. matchRel (length s) ic r s s')"
proof -
  have "exec ic (Seq Bol r) s \<noteq> None \<longleftrightarrow> run ic (Seq Bol r) (Map.empty, 0, s) \<noteq> []"
    unfolding exec_def
    by (subst execFrom.simps) (simp add: execFrom_Bol_later split: list.split)
  also have "\<dots> \<longleftrightarrow> (\<exists>s'. matchRel (length s) ic (Seq Bol r) s s')"
    by (rule run_nonempty_iff)
  also have "\<dots> \<longleftrightarrow> (\<exists>s'. matchRel (length s) ic r s s')"
    by simp
  finally show ?thesis .
qed

lemma matchRel_Star_Class:
  "matchRel n ic (Star (Class items)) s s' \<longleftrightarrow>
     (\<exists>u. s = u @ s' \<and> list_all (classMatches ic items) u)"
proof
  assume "matchRel n ic (Star (Class items)) s s'"
  then have "(matchRel n ic (Class items))\<^sup>*\<^sup>* s s'"
    by simp
  then show "\<exists>u. s = u @ s' \<and> list_all (classMatches ic items) u"
  proof (induction rule: converse_rtranclp_induct)
    case base
    show ?case by (rule exI [of _ "[]"]) simp
  next
    case (step y z)
    from step.hyps(1) obtain c where c: "y = c # z" "classMatches ic items c"
      by auto
    from step.IH obtain u where "z = u @ s'" "list_all (classMatches ic items) u"
      by blast
    with c show ?case
      by (intro exI [of _ "c # u"]) simp
  qed
next
  assume "\<exists>u. s = u @ s' \<and> list_all (classMatches ic items) u"
  then obtain u where "s = u @ s'" "list_all (classMatches ic items) u"
    by blast
  then have "(matchRel n ic (Class items))\<^sup>*\<^sup>* s s'"
  proof (induction u arbitrary: s)
    case Nil
    then show ?case by simp
  next
    case (Cons c u)
    from Cons.prems have a: "matchRel n ic (Class items) s (u @ s')"
      by simp
    from Cons.prems have "list_all (classMatches ic items) u"
      by simp
    from Cons.IH [OF refl this] have b: "(matchRel n ic (Class items))\<^sup>*\<^sup>* (u @ s') s'" .
    from a b show ?case
      by (rule converse_rtranclp_into_rtranclp)
  qed
  then show "matchRel n ic (Star (Class items)) s s'"
    by simp
qed

subsection \<open>The character classes of the FROM pattern\<close>

lemma code_values:
  "code CHR ''_'' = 95" "code CHR ''-'' = 45" "code CHR ''/'' = 47" "code CHR '':'' = 58"
  "code (CHR 0x5C) = 92" "code CHR ''.'' = 46"
  "code CHR ''F'' = 70" "code CHR ''R'' = 82" "code CHR ''O'' = 79" "code CHR ''M'' = 77"
  "code CHR ''A'' = 65" "code CHR ''S'' = 83"
  "code CHR ''f'' = 102" "code CHR ''r'' = 114" "code CHR ''o'' = 111" "code CHR ''m'' = 109"
  "code CHR ''a'' = 97" "code CHR ''s'' = 115" "code CHR ''z'' = 122"
  "code CHR ''0'' = 48" "code CHR ''9'' = 57"
  by (simp_all add: code_def)

lemma Single_ci:
  assumes "65 \<le> code a" "code a \<le> 90"
  shows "itemMatches True (Single a) n \<longleftrightarrow> n = code a \<or> n = code a + 32"
  using assms by (auto simp: itemMatches_def)

lemma Single_other:
  assumes "code a < 65 \<or> (90 < code a \<and> code a < 97) \<or> 122 < code a"
  shows "itemMatches True (Single a) n \<longleftrightarrow> n = code a"
  using assms by (auto simp: itemMatches_def)

lemma WhiteSpace_no_letter:
  "65 \<le> m \<Longrightarrow> m \<le> 122 \<Longrightarrow> \<not> itemHas WhiteSpace m"
  by simp

lemma WhiteSpace_ci:
  "itemMatches True WhiteSpace n \<longleftrightarrow> jsWhiteSpace n"
proof -
  have small: "\<not> (97 \<le> n \<and> n \<le> 122 \<and> itemHas WhiteSpace (n - 32))"
  proof
    assume "97 \<le> n \<and> n \<le> 122 \<and> itemHas WhiteSpace (n - 32)"
    then have r: "97 \<le> n" "n \<le> 122" and w: "itemHas WhiteSpace (n - 32)"
      by blast+
    from r have "65 \<le> n - 32" "n - 32 \<le> 122"
      by arith+
    then have "\<not> itemHas WhiteSpace (n - 32)"
      by (rule WhiteSpace_no_letter)
    from this w show False
      by (rule notE)
  qed
  have capital: "\<not> (65 \<le> n \<and> n \<le> 90 \<and> itemHas WhiteSpace (n + 32))"
  proof
    assume "65 \<le> n \<and> n \<le> 90 \<and> itemHas WhiteSpace (n + 32)"
    then have r: "65 \<le> n" "n \<le> 90" and w: "itemHas WhiteSpace (n + 32)"
      by blast+
    from r have "65 \<le> n + 32" "n + 32 \<le> 122"
      by arith+
    then have "\<not> itemHas WhiteSpace (n + 32)"
      by (rule WhiteSpace_no_letter)
    from this w show False
      by (rule notE)
  qed
  have same: "itemHas WhiteSpace n \<longleftrightarrow> jsWhiteSpace n"
    by (simp only: itemHas.simps jsWhiteSpace_def)
  show ?thesis
    unfolding itemMatches_def
    using small capital same by blast
qed

lemma WordChar_ci:
  "itemMatches True WordChar n \<longleftrightarrow> asciiLetter n \<or> asciiDigit n \<or> n = code CHR ''_''"
  by (auto simp: itemMatches_def asciiLetter_def asciiDigit_def code_values)

lemma Range_letters_ci:
  "itemMatches True (Range CHR ''a'' CHR ''z'') n \<longleftrightarrow> asciiLetter n"
  by (auto simp: itemMatches_def asciiLetter_def code_values)

lemma Range_digits_ci:
  "itemMatches True (Range CHR ''0'' CHR ''9'') n \<longleftrightarrow> asciiDigit n"
  by (auto simp: itemMatches_def asciiDigit_def code_values)

lemma whiteSpace_class [simp]:
  "classMatches True [WhiteSpace] n \<longleftrightarrow> jsWhiteSpace n"
  by (simp add: classMatches_def WhiteSpace_ci)

lemma letter_class [simp]:
  "classMatches True [Range CHR ''a'' CHR ''z''] n \<longleftrightarrow> asciiLetter n"
  by (simp add: classMatches_def Range_letters_ci)

lemma imageRef_class [simp]:
  "classMatches True [WordChar, Single CHR ''-'', Single CHR ''/'', Single CHR '':''] n
     \<longleftrightarrow> imageRefChar n"
  by (auto simp: classMatches_def imageRefChar_def WordChar_ci Single_other code_values)

lemma aliasTail_class [simp]:
  "classMatches True [Range CHR ''a'' CHR ''z'', Range CHR ''0'' CHR ''9'', Single CHR ''-'',
                      Single CHR ''_'', Single (CHR 0x5C), Single CHR ''.''] n
     \<longleftrightarrow> aliasTailChar n"
  by (auto simp: classMatches_def aliasTailChar_def Range_letters_ci Range_digits_ci
        Single_other code_values)

lemma keyword_letters:
  "itemMatches True (Single CHR ''F'') n \<longleftrightarrow> n \<in> {code CHR ''F'', code CHR ''f''}"
  "itemMatches True (Single CHR ''R'') n \<longleftrightarrow> n \<in> {code CHR ''R'', code CHR ''r''}"
  "itemMatches True (Single CHR ''O'') n \<longleftrightarrow> n \<in> {code CHR ''O'', code CHR ''o''}"
  "itemMatches True (Single CHR ''M'') n \<longleftrightarrow> n \<in> {code CHR ''M'', code CHR ''m''}"
  "itemMatches True (Single CHR ''A'') n \<longleftrightarrow> n \<in> {code CHR ''A'', code CHR ''a''}"
  "itemMatches True (Single CHR ''S'') n \<longleftrightarrow> n \<in> {code CHR ''S'', code CHR ''s''}"
  by (simp_all add: Single_ci code_values)

subsection \<open>Rules for reading a pattern piece by piece\<close>

lemma Seq_E:
  assumes "matchRel n ic (Seq r1 r2) s s'"
  obtains m where "matchRel n ic r1 s m" "matchRel n ic r2 m s'"
  using assms by auto

lemma Star_Class_E:
  assumes "matchRel n ic (Star (Class items)) s s'"
  obtains u where "s = u @ s'" "list_all (classMatches ic items) u"
  using assms unfolding matchRel_Star_Class by blast

lemma Lit_E:
  assumes "matchRel n ic (Lit a) s s'"
  obtains c where "s = c # s'" "itemMatches ic (Single a) c"
  using assms by auto

lemma Class_E:
  assumes "matchRel n ic (Class items) s s'"
  obtains c where "s = c # s'" "classMatches ic items c"
  using assms by auto

lemma Group_E:
  assumes "matchRel n ic (Group k r) s s'"
  obtains "matchRel n ic r s s'"
  using assms by simp

lemma Opt_E:
  assumes "matchRel n ic (Opt r) s s'"
  obtains "matchRel n ic r s s'" | "s' = s"
  using assms by auto

lemma Eol_E:
  assumes "matchRel n ic Eol s s'"
  obtains "s = []" "s' = []"
  using assms by auto

lemma Seq_I: "matchRel n ic r1 s m \<Longrightarrow> matchRel n ic r2 m s' \<Longrightarrow> matchRel n ic (Seq r1 r2) s s'"
  by auto

lemma Star_Class_I: "list_all (classMatches ic items) u \<Longrightarrow> matchRel n ic (Star (Class items)) (u @ s') s'"
  unfolding matchRel_Star_Class by blast

lemma Lit_I: "itemMatches ic (Single a) c \<Longrightarrow> matchRel n ic (Lit a) (c # s') s'"
  by simp

lemma Class_I: "classMatches ic items c \<Longrightarrow> matchRel n ic (Class items) (c # s') s'"
  by simp

lemma Group_I: "matchRel n ic r s s' \<Longrightarrow> matchRel n ic (Group k r) s s'"
  by simp

lemma Opt_I1: "matchRel n ic r s s' \<Longrightarrow> matchRel n ic (Opt r) s s'"
  by simp

lemma Opt_I2: "matchRel n ic (Opt r) s s"
  by simp

lemma Eol_I: "matchRel n ic Eol [] []"
  by simp

lemma class_funs:
  "classMatches True [WhiteSpace] = jsWhiteSpace"
  "classMatches True [Range CHR ''a'' CHR ''z''] = asciiLetter"
  "classMatches True [WordChar, Single CHR ''-'', Single CHR ''/'', Single CHR '':''] = imageRefChar"
  "classMatches True [Range CHR ''a'' CHR ''z'', Range CHR ''0'' CHR ''9'', Single CHR ''-'',
                      Single CHR ''_'', Single (CHR 0x5C), Single CHR ''.''] = aliasTailChar"
  by (rule ext, simp)+

lemma recognizesFrom_matchRel:
  "recognizesFrom line \<longleftrightarrow>
     (\<exists>s'. matchRel (length line) True
        (Seq (Star (Class [WhiteSpace]))
          (Seq (Lit CHR ''F'') (Seq (Lit CHR ''R'') (Seq (Lit CHR ''O'') (Seq (Lit CHR ''M'')
            (Seq (Star (Class [WhiteSpace]))
              (Seq (Group 1 (Star (Class [WordChar, Single CHR ''-'', Single CHR ''/'', Single CHR '':''])))
                (Seq (Opt (Group 2
                   (Seq (Star (Class [WhiteSpace])) (Seq (Lit CHR ''A'') (Seq (Lit CHR ''S'')
                     (Seq (Star (Class [WhiteSpace])) (Seq (Class [Range CHR ''a'' CHR ''z''])
                       (Star (Class [Range CHR ''a'' CHR ''z'', Range CHR ''0'' CHR ''9'',
                                     Single CHR ''-'', Single CHR ''_'', Single (CHR 0x5C),
                                     Single CHR ''.'']))))))))) Eol))))))))
        line s')"
  unfolding recognizesFrom_def matchFromDirective_def FROM_DIRECTIVE_PATTERN_def seqs.simps exec_Bol_iff
  by (rule refl)

lemma from_forward:
  assumes "recognizesFrom line"
  shows "fromLineShape aliasTailChar line"
  unfolding fromLineShape_def
  using assms unfolding recognizesFrom_matchRel
  apply (elim exE Seq_E Star_Class_E Lit_E Group_E Opt_E Eol_E Class_E)
   apply (simp_all only: class_funs keyword_letters)
   apply hypsubst
   apply (intro exI conjI)
            apply (rule refl)
           apply assumption+
   apply (rule disjI2)
   apply (intro exI conjI)
         apply (rule refl)
        apply assumption+
   apply simp
  apply hypsubst
  apply (intro exI conjI)
          apply (rule refl)
         apply assumption+
  apply (rule disjI1)
  apply (rule refl)
  done

lemma fromLineShape_cases:
  assumes "fromLineShape tail line"
  obtains (plain) ws1 cF cR cO cM ws2 img where
      "line = ws1 @ cF # cR # cO # cM # ws2 @ img @ []"
      "list_all jsWhiteSpace ws1"
      "cF \<in> {code CHR ''F'', code CHR ''f''}" "cR \<in> {code CHR ''R'', code CHR ''r''}"
      "cO \<in> {code CHR ''O'', code CHR ''o''}" "cM \<in> {code CHR ''M'', code CHR ''m''}"
      "list_all jsWhiteSpace ws2" "list_all imageRefChar img"
  | (aliased) ws1 cF cR cO cM ws2 img ws3 cA cS ws4 c cs where
      "line = ws1 @ cF # cR # cO # cM # ws2 @ img @ ws3 @ cA # cS # ws4 @ c # cs"
      "list_all jsWhiteSpace ws1"
      "cF \<in> {code CHR ''F'', code CHR ''f''}" "cR \<in> {code CHR ''R'', code CHR ''r''}"
      "cO \<in> {code CHR ''O'', code CHR ''o''}" "cM \<in> {code CHR ''M'', code CHR ''m''}"
      "list_all jsWhiteSpace ws2" "list_all imageRefChar img"
      "list_all jsWhiteSpace ws3"
      "cA \<in> {code CHR ''A'', code CHR ''a''}" "cS \<in> {code CHR ''S'', code CHR ''s''}"
      "list_all jsWhiteSpace ws4" "asciiLetter c" "list_all tail cs"
proof -
  from assms [unfolded fromLineShape_def] obtain ws1 cF cR cO cM ws2 img rest where
    line: "line = ws1 @ cF # cR # cO # cM # ws2 @ img @ rest" and
    props: "list_all jsWhiteSpace ws1"
      "cF \<in> {code CHR ''F'', code CHR ''f''}" "cR \<in> {code CHR ''R'', code CHR ''r''}"
      "cO \<in> {code CHR ''O'', code CHR ''o''}" "cM \<in> {code CHR ''M'', code CHR ''m''}"
      "list_all jsWhiteSpace ws2" "list_all imageRefChar img" and
    rest: "rest = [] \<or> (\<exists>ws3 cA cS ws4 c cs.
            rest = ws3 @ cA # cS # ws4 @ c # cs \<and>
            list_all jsWhiteSpace ws3 \<and>
            cA \<in> {code CHR ''A'', code CHR ''a''} \<and> cS \<in> {code CHR ''S'', code CHR ''s''} \<and>
            list_all jsWhiteSpace ws4 \<and> asciiLetter c \<and> list_all tail cs)"
    by (elim exE conjE) (rule that; assumption)
  from rest show thesis
  proof
    assume "rest = []"
    with line have "line = ws1 @ cF # cR # cO # cM # ws2 @ img @ []"
      by simp
    then show thesis
      by (rule plain) (rule props)+
  next
    assume "\<exists>ws3 cA cS ws4 c cs.
            rest = ws3 @ cA # cS # ws4 @ c # cs \<and>
            list_all jsWhiteSpace ws3 \<and>
            cA \<in> {code CHR ''A'', code CHR ''a''} \<and> cS \<in> {code CHR ''S'', code CHR ''s''} \<and>
            list_all jsWhiteSpace ws4 \<and> asciiLetter c \<and> list_all tail cs"
    then obtain ws3 cA cS ws4 c cs where
      r: "rest = ws3 @ cA # cS # ws4 @ c # cs" and
      aprops: "list_all jsWhiteSpace ws3"
      "cA \<in> {code CHR ''A'', code CHR ''a''}" "cS \<in> {code CHR ''S'', code CHR ''s''}"
      "list_all jsWhiteSpace ws4" "asciiLetter c" "list_all tail cs"
      by (elim exE conjE) (rule that; assumption)
    from line r have "line = ws1 @ cF # cR # cO # cM # ws2 @ img @ ws3 @ cA # cS # ws4 @ c # cs"
      by simp
    then show thesis
      by (rule aliased) (rule props aprops)+
  qed
qed

lemma from_backward:
  assumes "fromLineShape aliasTailChar line"
  shows "recognizesFrom line"
  using assms
proof (cases rule: fromLineShape_cases)
  case (plain ws1 cF cR cO cM ws2 img)
  from plain(2-) have props: "list_all (classMatches True [WhiteSpace]) ws1"
      "itemMatches True (Single CHR ''F'') cF" "itemMatches True (Single CHR ''R'') cR"
      "itemMatches True (Single CHR ''O'') cO" "itemMatches True (Single CHR ''M'') cM"
      "list_all (classMatches True [WhiteSpace]) ws2"
      "list_all (classMatches True [WordChar, Single CHR ''-'', Single CHR ''/'', Single CHR '':'']) img"
    by (simp_all only: class_funs keyword_letters)
  from plain(1) show ?thesis
    unfolding recognizesFrom_matchRel
    apply hypsubst
    apply (rule exI [of _ "[]"])
    apply (rule Seq_I Star_Class_I Lit_I Group_I Opt_I2 Eol_I props)+
    done
next
  case (aliased ws1 cF cR cO cM ws2 img ws3 cA cS ws4 c cs)
  from aliased(2-) have props: "list_all (classMatches True [WhiteSpace]) ws1"
      "itemMatches True (Single CHR ''F'') cF" "itemMatches True (Single CHR ''R'') cR"
      "itemMatches True (Single CHR ''O'') cO" "itemMatches True (Single CHR ''M'') cM"
      "list_all (classMatches True [WhiteSpace]) ws2"
      "list_all (classMatches True [WordChar, Single CHR ''-'', Single CHR ''/'', Single CHR '':'']) img"
      "list_all (classMatches True [WhiteSpace]) ws3"
      "itemMatches True (Single CHR ''A'') cA" "itemMatches True (Single CHR ''S'') cS"
      "list_all (classMatches True [WhiteSpace]) ws4"
      "classMatches True [Range CHR ''a'' CHR ''z''] c"
      "list_all (classMatches True [Range CHR ''a'' CHR ''z'', Range CHR ''0'' CHR ''9'',
           Single CHR ''-'', Single CHR ''_'', Single (CHR 0x5C), Single CHR ''.'']) cs"
    by (simp_all only: class_funs keyword_letters)
  from aliased(1)
  have "line = ws1 @ cF # cR # cO # cM # ws2 @ img @ ws3 @ cA # cS # ws4 @ c # cs @ []"
    by simp
  then show ?thesis
    unfolding recognizesFrom_matchRel
    apply hypsubst
    apply (rule exI [of _ "[]"])
    apply (rule Seq_I Star_Class_I Lit_I Class_I Group_I Opt_I1 Eol_I props)+
    done
qed

lemma from_pattern_full:
  "recognizesFrom line \<longleftrightarrow> fromLineShape aliasTailChar line"
  by (rule iffI) (erule from_forward, erule from_backward)

lemma fromLineShape_mono:
  assumes shape: "fromLineShape P line"
    and imp: "\<And>n. n \<in> set line \<Longrightarrow> P n \<Longrightarrow> Q n"
  shows "fromLineShape Q line"
  using shape
proof (cases rule: fromLineShape_cases)
  case (plain ws1 cF cR cO cM ws2 img)
  show ?thesis
    unfolding fromLineShape_def
    apply (intro exI conjI)
            apply (rule plain(1))
           apply (rule plain(2-))+
    apply (rule disjI1)
    apply (rule refl)
    done
next
  case (aliased ws1 cF cR cO cM ws2 img ws3 cA cS ws4 c cs)
  from aliased(1) have "set cs \<subseteq> set line"
    by auto
  with aliased(14) imp have tail: "list_all Q cs"
    by (auto simp: list_all_iff)
  show ?thesis
    unfolding fromLineShape_def
    apply (intro exI conjI)
            apply (rule aliased(1))
           apply (rule aliased(2-8))+
    apply (rule disjI2)
    apply (intro exI conjI)
          apply (rule refl)
         apply (rule aliased(9-13) tail)+
    done
qed

text \<open>
  C1 as stated fails in both directions. The line \<^verbatim>\<open>FROM ubuntu:18.04\<close> matches the
  specification's pattern and is not recognised by the code's pattern, whose image class has
  no dot; the line \<^verbatim>\<open>FROMubuntu\<close> is recognised by the code's pattern, whose white space
  after FROM may be empty, and does not match the specification's pattern.
\<close>

lemmas from_eval =
  specRecognizesFrom_def recognizesFrom_def matchFromDirective_def exec_def
  execFrom.simps run_Star FROM_DIRECTIVE_PATTERN_def SPEC_FROM_PATTERN_def Plus_def
  itemMatches_def classMatches_def code_def str_def

theorem from_pattern_counterexample:
  "specRecognizesFrom (str ''FROM ubuntu:18.04'') \<and> \<not> recognizesFrom (str ''FROM ubuntu:18.04'')
   \<and> recognizesFrom (str ''FROMubuntu'') \<and> \<not> specRecognizesFrom (str ''FROMubuntu'')"
  by (simp add: from_eval)

text \<open>
  C1, amended. For every line, a string of any code units, that holds no backslash: the line
  is recognised by the FROM matcher exactly when it is made of optional white space, the
  four letters of FROM in either case, optional white space, a possibly empty run of
  letters, digits, underscore, dash, slash and colon, and then either nothing or optional
  white space, the two letters of AS in either case, optional white space, a letter, and a run
  of letters, digits, dash, underscore and dot. White space is what \<open>\s\<close> matches in
  JavaScript. Nothing may follow, not even white space, and the image reference takes no dot.
  (What the pattern does with a backslash is left out.)
\<close>

theorem from_pattern_shape:
  assumes "code (CHR 0x5C) \<notin> set line"
  shows "recognizesFrom line \<longleftrightarrow>
     (\<exists>ws1 cF cR cO cM ws2 img rest.
        line = ws1 @ cF # cR # cO # cM # ws2 @ img @ rest \<and>
        list_all jsWhiteSpace ws1 \<and>
        cF \<in> {code CHR ''F'', code CHR ''f''} \<and> cR \<in> {code CHR ''R'', code CHR ''r''} \<and>
        cO \<in> {code CHR ''O'', code CHR ''o''} \<and> cM \<in> {code CHR ''M'', code CHR ''m''} \<and>
        list_all jsWhiteSpace ws2 \<and> list_all imageRefChar img \<and>
        (rest = [] \<or>
         (\<exists>ws3 cA cS ws4 c cs.
            rest = ws3 @ cA # cS # ws4 @ c # cs \<and>
            list_all jsWhiteSpace ws3 \<and>
            cA \<in> {code CHR ''A'', code CHR ''a''} \<and> cS \<in> {code CHR ''S'', code CHR ''s''} \<and>
            list_all jsWhiteSpace ws4 \<and> asciiLetter c \<and> list_all aliasChar cs)))"
proof -
  have "fromLineShape aliasTailChar line \<longleftrightarrow> fromLineShape aliasChar line"
  proof
    assume "fromLineShape aliasTailChar line"
    then show "fromLineShape aliasChar line"
    proof (rule fromLineShape_mono)
      fix n assume "n \<in> set line" "aliasTailChar n"
      with assms show "aliasChar n"
        by (auto simp: aliasTailChar_def aliasChar_def)
    qed
  next
    assume "fromLineShape aliasChar line"
    then show "fromLineShape aliasTailChar line"
    proof (rule fromLineShape_mono)
      fix n assume "aliasChar n"
      then show "aliasTailChar n"
        by (auto simp: aliasTailChar_def aliasChar_def)
    qed
  qed
  with from_pattern_full have "recognizesFrom line \<longleftrightarrow> fromLineShape aliasChar line"
    by simp
  then show ?thesis
    unfolding fromLineShape_def .
qed

theorem from_pattern_shape_witness:
  "code (CHR 0x5C) \<notin> set (str ''FROM node:14 AS builder'')
   \<and> recognizesFrom (str ''FROM node:14 AS builder'')
   \<and> (\<exists>ws1 cF cR cO cM ws2 img rest.
        str ''FROM node:14 AS builder'' = ws1 @ cF # cR # cO # cM # ws2 @ img @ rest \<and>
        list_all jsWhiteSpace ws1 \<and>
        cF \<in> {code CHR ''F'', code CHR ''f''} \<and> cR \<in> {code CHR ''R'', code CHR ''r''} \<and>
        cO \<in> {code CHR ''O'', code CHR ''o''} \<and> cM \<in> {code CHR ''M'', code CHR ''m''} \<and>
        list_all jsWhiteSpace ws2 \<and> list_all imageRefChar img \<and>
        (rest = [] \<or>
         (\<exists>ws3 cA cS ws4 c cs.
            rest = ws3 @ cA # cS # ws4 @ c # cs \<and>
            list_all jsWhiteSpace ws3 \<and>
            cA \<in> {code CHR ''A'', code CHR ''a''} \<and> cS \<in> {code CHR ''S'', code CHR ''s''} \<and>
            list_all jsWhiteSpace ws4 \<and> asciiLetter c \<and> list_all aliasChar cs)))"
proof -
  have nb: "code (CHR 0x5C) \<notin> set (str ''FROM node:14 AS builder'')"
    by (simp add: str_def code_def)
  have r: "recognizesFrom (str ''FROM node:14 AS builder'')"
    by (simp add: from_eval)
  from from_pattern_shape [OF nb] r
  have "\<exists>ws1 cF cR cO cM ws2 img rest.
        str ''FROM node:14 AS builder'' = ws1 @ cF # cR # cO # cM # ws2 @ img @ rest \<and>
        list_all jsWhiteSpace ws1 \<and>
        cF \<in> {code CHR ''F'', code CHR ''f''} \<and> cR \<in> {code CHR ''R'', code CHR ''r''} \<and>
        cO \<in> {code CHR ''O'', code CHR ''o''} \<and> cM \<in> {code CHR ''M'', code CHR ''m''} \<and>
        list_all jsWhiteSpace ws2 \<and> list_all imageRefChar img \<and>
        (rest = [] \<or>
         (\<exists>ws3 cA cS ws4 c cs.
            rest = ws3 @ cA # cS # ws4 @ c # cs \<and>
            list_all jsWhiteSpace ws3 \<and>
            cA \<in> {code CHR ''A'', code CHR ''a''} \<and> cS \<in> {code CHR ''S'', code CHR ''s''} \<and>
            list_all jsWhiteSpace ws4 \<and> asciiLetter c \<and> list_all aliasChar cs))"
    by (rule iffD1)
  with nb r show ?thesis
    by (intro conjI)
qed

section \<open>Properties of the Dockerfile parser\<close>

lemmas dockerfile_eval =
  parseDockerfile_def toDirective_def isBlankOrComment_def jsWhiteSpace_def asciiLetter_def
  toUpper_def aliasOfGroup_def matchFromDirective_def exec_def execFrom.simps run_Star
  FROM_DIRECTIVE_PATTERN_def itemMatches_def classMatches_def code_def str_def Let_def

text \<open>
  C7. With FROM among the known instructions, parsing the single line
  \<^verbatim>\<open>FROM node:14 AS builder\<close> yields one record, with instruction \<^verbatim>\<open>FROM\<close> and stage alias
  \<^verbatim>\<open>builder\<close>, and parsing \<^verbatim>\<open>FROM node:14\<close> yields one record with instruction \<^verbatim>\<open>FROM\<close> and
  no stage alias.
\<close>

theorem parseDockerfile_stage_alias:
  assumes "str ''FROM'' \<in> set known"
  shows "map (\<lambda>d. (instruction d, stageAlias d))
           (parseDockerfile known (str ''FROM node:14 AS builder''))
           = [(str ''FROM'', Some (str ''builder''))]
       \<and> map (\<lambda>d. (instruction d, stageAlias d)) (parseDockerfile known (str ''FROM node:14''))
           = [(str ''FROM'', None)]"
  using assms by (simp add: dockerfile_eval)

theorem parseDockerfile_stage_alias_witness:
  "str ''FROM'' \<in> set [str ''FROM'', str ''RUN'', str ''COPY'']
   \<and> map (\<lambda>d. (instruction d, stageAlias d))
         (parseDockerfile [str ''FROM'', str ''RUN'', str ''COPY''] (str ''FROM node:14 AS builder''))
       = [(str ''FROM'', Some (str ''builder''))]
   \<and> map (\<lambda>d. (instruction d, stageAlias d))
         (parseDockerfile [str ''FROM'', str ''RUN'', str ''COPY''] (str ''FROM node:14''))
       = [(str ''FROM'', None)]"
proof -
  have known: "str ''FROM'' \<in> set [str ''FROM'', str ''RUN'', str ''COPY'']"
    by simp
  from known parseDockerfile_stage_alias [OF known] show ?thesis
    by (rule conjI)
qed

section \<open>Properties of the Compose parser\<close>











lemmas compose_eval =
  parseCompose_def composeLines_def stripCR_def parseStep_def openNode_def classifyLine_def
  keyOf_def buildIndex_def rootNode_def enumerate_eq_zip Let_def upt_rec code_def str_def

text \<open>
  A run of the parser on five lines, the second with a CRLF line end and the fourth starting
  with a tab: the fourth line is left out, the rest is linked.
\<close>

lemma parseCompose_example:
  "parseCompose (str ''services:'' @ [10] @ str ''  web:'' @ [13, 10] @ str ''    image: x'' @ [10]
                 @ [9] @ str ''bad: 1'' @ [10] @ str ''  - db'') =
     Inr \<lparr>nodes =
        [\<lparr>keyPath = [], key = [], valueKind = Mapping, indentLevel = - 1,
            lineNumber = 0, columnSpan = (0, 0), children = [1], parent = None\<rparr>,
         \<lparr>keyPath = [str ''services''], key = str ''services'', valueKind = Mapping,
            indentLevel = 0, lineNumber = 0, columnSpan = (0, 9),
            children = [2, 4], parent = Some 0\<rparr>,
         \<lparr>keyPath = [str ''services'', str ''web''], key = str ''web'',
            valueKind = Mapping, indentLevel = 2, lineNumber = 1,
            columnSpan = (2, 6), children = [3], parent = Some 1\<rparr>,
         \<lparr>keyPath = [str ''services'', str ''web'', str ''image''], key = str ''image'',
            valueKind = Scalar, indentLevel = 4, lineNumber = 2,
            columnSpan = (4, 12), children = [], parent = Some 2\<rparr>,
         \<lparr>keyPath = [str ''services'', str ''db''], key = str ''db'',
            valueKind = Sequence, indentLevel = 2, lineNumber = 4,
            columnSpan = (2, 6), children = [], parent = Some 1\<rparr>],
        offsetIndex = [((0, 0, 9), 1), ((1, 2, 6), 2), ((2, 4, 12), 3), ((4, 2, 6), 4)]\<rparr>"
  by (simp add: compose_eval)



end
